theory Spec2Isabelle
  imports Main "HOL-Library.AList"
begin

section \<open>Python strings\<close>

text \<open>
  A Python \<open>str\<close> is a sequence of Unicode code points. A character is modelled by its
  code point, a string by the list of its code points. ASCII literals are written with
  \<open>str\<close>.
\<close>

type_synonym pychar = nat
type_synonym pystr = "pychar list"

definition str :: "string \<Rightarrow> pystr" where
  "str s = map of_char s"

definition dash :: pychar where
  "dash = 45"

definition colon :: pychar where
  "colon = 58"

text \<open>
  \<open>str.isdigit\<close>, \<open>str.isalpha\<close>, \<open>int\<close> and \<open>str.upper\<close> consult the Unicode
  character database of the interpreter. On ASCII the answers are fixed and written out
  below; the rest of the database is a parameter of the model, so every general
  statement holds for whatever the tables say beyond ASCII.
\<close>

record unicode_db =
  db_isdigit :: "pychar \<Rightarrow> bool"
  db_isalpha :: "pychar \<Rightarrow> bool"
  db_decimal :: "pychar \<Rightarrow> nat option"
  db_upper :: "pychar \<Rightarrow> pystr"

definition char_isdigit :: "unicode_db \<Rightarrow> pychar \<Rightarrow> bool" where
  "char_isdigit U c = (if c < 128 then 48 \<le> c \<and> c \<le> 57 else db_isdigit U c)"

definition char_isalpha :: "unicode_db \<Rightarrow> pychar \<Rightarrow> bool" where
  "char_isalpha U c =
     (if c < 128 then (65 \<le> c \<and> c \<le> 90) \<or> (97 \<le> c \<and> c \<le> 122) else db_isalpha U c)"

text \<open>\<open>s.isdigit()\<close>: every character is a digit and there is at least one.\<close>

definition str_isdigit :: "unicode_db \<Rightarrow> pystr \<Rightarrow> bool" where
  "str_isdigit U s = (s \<noteq> [] \<and> list_all (char_isdigit U) s)"

text \<open>
  \<open>s.split(sep)\<close> for a one-character separator, and \<open>sep.join(parts)\<close>. A split
  has at least one part, so the first branch of the \<open>case\<close> below is never taken.
\<close>

fun split :: "pychar \<Rightarrow> pystr \<Rightarrow> pystr list" where
  "split sep [] = [[]]"
| "split sep (c # cs) =
     (if c = sep then [] # split sep cs
      else (case split sep cs of [] \<Rightarrow> [[c]] | p # ps \<Rightarrow> (c # p) # ps))"

fun join :: "pychar \<Rightarrow> pystr list \<Rightarrow> pystr" where
  "join sep [] = []"
| "join sep [p] = p"
| "join sep (p # q # ps) = p @ sep # join sep (q # ps)"

section \<open>Spec parser: \<open>parse_position_args\<close>\<close>

text \<open>
  The test of line 96: the candidate left part holds a digit and a letter.
\<close>

definition looks_like_cell :: "unicode_db \<Rightarrow> pystr \<Rightarrow> bool" where
  "looks_like_cell U left_part =
     (list_ex (char_isdigit U) left_part \<and> list_ex (char_isalpha U) left_part)"

text \<open>
  The loop of lines 91 to 101 over \<open>range(len(parts)-1, 0, -1)\<close>; \<open>None\<close> is its
  \<open>else\<close> branch (no \<open>break\<close>).
\<close>

fun find_split :: "unicode_db \<Rightarrow> pystr list \<Rightarrow> nat list \<Rightarrow> (pystr \<times> pystr) option" where
  "find_split U parts [] = None"
| "find_split U parts (i # is) =
     (let left_part = join dash (take i parts);
          right_part = join dash (drop i parts)
      in if looks_like_cell U left_part then Some (left_part, right_part)
         else find_split U parts is)"

text \<open>The body of the loop over \<open>position_args\<close>, lines 85 to 104, for one line.\<close>

definition parse_position_arg :: "unicode_db \<Rightarrow> pystr \<Rightarrow> pystr \<times> pystr" where
  "parse_position_arg U arg =
     (if dash \<in> set arg then
        (let parts = split dash arg
         in case find_split U parts (rev [1..<length parts]) of
              Some p \<Rightarrow> p
            | None \<Rightarrow> (arg, arg))
      else (arg, arg))"

definition parse_position_args :: "unicode_db \<Rightarrow> pystr list \<Rightarrow> (pystr \<times> pystr) list" where
  "parse_position_args U position_args = map (parse_position_arg U) position_args"

section \<open>Built-ins: \<open>int\<close>, \<open>str.upper\<close> and column names\<close>

text \<open>
  \<open>int(s)\<close> is only called on a string that passed \<open>isdigit()\<close>, so no sign, blank or
  underscore can occur: the result is the decimal value when every character is a decimal
  digit and \<open>ValueError\<close> otherwise (a superscript digit is a digit for \<open>isdigit\<close>
  but not for \<open>int\<close>). The interpreter refuses a decimal string of more than
  \<open>sys.int_info.default_max_str_digits\<close> digits, 4300, with \<open>ValueError\<close> as well;
  the program does not change that limit.
\<close>

datatype error = ValueError | IndexError | ReadError | OpenFailed | NoDataExtracted

definition char_decimal :: "unicode_db \<Rightarrow> pychar \<Rightarrow> nat option" where
  "char_decimal U c =
     (if c < 128 then (if 48 \<le> c \<and> c \<le> 57 then Some (c - 48) else None)
      else db_decimal U c)"

fun digits_value :: "unicode_db \<Rightarrow> int \<Rightarrow> pystr \<Rightarrow> int option" where
  "digits_value U acc [] = Some acc"
| "digits_value U acc (c # cs) =
     (case char_decimal U c of
        None \<Rightarrow> None
      | Some d \<Rightarrow> digits_value U (10 * acc + int d) cs)"

definition int_max_str_digits :: nat where
  "int_max_str_digits = 4300"

definition py_int :: "unicode_db \<Rightarrow> pystr \<Rightarrow> error + int" where
  "py_int U s =
     (if length s > int_max_str_digits then Inl ValueError
      else (case digits_value U 0 s of None \<Rightarrow> Inl ValueError | Some n \<Rightarrow> Inr n))"

definition char_upper :: "unicode_db \<Rightarrow> pychar \<Rightarrow> pystr" where
  "char_upper U c =
     (if c < 128 then (if 97 \<le> c \<and> c \<le> 122 then [c - 32] else [c]) else db_upper U c)"

definition str_upper :: "unicode_db \<Rightarrow> pystr \<Rightarrow> pystr" where
  "str_upper U s = concat (map (char_upper U) s)"

text \<open>
  \<open>openpyxl.utils.column_index_from_string\<close>, imported at line 6: the upper-cased
  name is looked up among the column names \<open>A\<close> to \<open>ZZZ\<close>, numbered from 1 in
  bijective base 26; any other string raises \<open>ValueError\<close>.
\<close>

definition is_upper_letter :: "pychar \<Rightarrow> bool" where
  "is_upper_letter c = (65 \<le> c \<and> c \<le> 90)"

definition column_index_from_string :: "unicode_db \<Rightarrow> pystr \<Rightarrow> error + int" where
  "column_index_from_string U str_col =
     (let u = str_upper U str_col
      in if 1 \<le> length u \<and> length u \<le> 3 \<and> list_all is_upper_letter u
         then Inr (foldl (\<lambda>a c. 26 * a + (int c - 64)) 0 u)
         else Inl ValueError)"

section \<open>Worksheet grid and values\<close>

text \<open>
  A worksheet as \<open>pd.read_excel(..., header=None)\<close> delivers it: \<open>df.shape\<close> is
  \<open>(num_rows, num_cols)\<close> and \<open>cell r c\<close> is the scalar at the 0-based position.
  \<open>df.iloc[r, c]\<close> counts a negative index from the end and raises \<open>IndexError\<close>
  outside the shape.
\<close>

record 'v dataframe =
  num_rows :: nat
  num_cols :: nat
  cell :: "nat \<Rightarrow> nat \<Rightarrow> 'v"

definition iloc :: "'v dataframe \<Rightarrow> int \<Rightarrow> int \<Rightarrow> error + 'v" where
  "iloc df r c =
     (let r' = (if r < 0 then r + int (num_rows df) else r);
          c' = (if c < 0 then c + int (num_cols df) else c)
      in if 0 \<le> r' \<and> r' < int (num_rows df) \<and> 0 \<le> c' \<and> c' < int (num_cols df)
         then Inr (cell df (nat r') (nat c'))
         else Inl IndexError)"

text \<open>
  The values that end up in a record: \<open>None\<close> (the missing marker), a string (the sheet
  and file names), a scalar read from the grid, a list (the flattened range), and the
  \<open>NaN\<close> that \<open>pd.DataFrame\<close> puts where a record has no such key.
\<close>

datatype 'v pyval = PyNone | PyStr pystr | Scalar 'v | PyList "'v pyval list" | PyNaN

text \<open>
  What \<open>print\<close> and \<open>self.log\<close> emit, one constructor per call site, carrying the
  values interpolated into the message.
\<close>

datatype log_line =
    RowExceeds int pystr nat
  | ColumnExceeds pystr int pystr nat
  | RangeRowsExceed pystr nat
  | RangeColumnsExceed pystr nat
  | SheetReadFailed pystr error
  | ExtractFailed pystr pystr error
  | GuiSheetReadFailed pystr error
  | GuiExtractFailed pystr error
  | ProcessingFile pystr
  | SheetExtracted pystr
  | FileFailed pystr error
  | Saved pystr
  | Total nat
  | FileDone nat pystr
  | FileError error

section \<open>Range resolver: \<open>get_range_data_from_pandas\<close>\<close>

text \<open>
  The \<open>for ... else\<close> of lines 20 to 26 (and 41 to 47, 50 to 56) over
  \<open>range(1, len(cell_range))\<close>: the first index whose suffix is all digits splits the
  token; \<open>int\<close> may still raise there; the \<open>else\<close> branch raises \<open>ValueError\<close>.
\<close>

fun scan_cell :: "unicode_db \<Rightarrow> pystr \<Rightarrow> nat list \<Rightarrow> error + (pystr \<times> int)" where
  "scan_cell U s [] = Inl ValueError"
| "scan_cell U s (i # is) =
     (if str_isdigit U (drop i s)
      then (case py_int U (drop i s) of
              Inl e \<Rightarrow> Inl e
            | Inr row \<Rightarrow> Inr (take i s, row))
      else scan_cell U s is)"

definition parse_cell :: "unicode_db \<Rightarrow> pystr \<Rightarrow> error + (pystr \<times> int)" where
  "parse_cell U s = scan_cell U s [1..<length s]"

text \<open>\<open>range(a, b)\<close> on integers.\<close>

definition py_range :: "int \<Rightarrow> int \<Rightarrow> int list" where
  "py_range a b = [a..b - 1]"

text \<open>The inner loop of lines 70 and 71 for one row.\<close>

fun row_slice :: "'v dataframe \<Rightarrow> int \<Rightarrow> int list \<Rightarrow> error + 'v pyval list" where
  "row_slice df row_idx [] = Inr []"
| "row_slice df row_idx (col_idx # cols) =
     (case iloc df row_idx col_idx of
        Inl e \<Rightarrow> Inl e
      | Inr v \<Rightarrow>
          (case row_slice df row_idx cols of
             Inl e \<Rightarrow> Inl e
           | Inr vs \<Rightarrow> Inr (Scalar v # vs)))"

text \<open>
  The outer loop of lines 69 to 74; \<open>pad\<close> is what line 74 appends after each row.
\<close>

fun range_values ::
  "'v dataframe \<Rightarrow> int list \<Rightarrow> 'v pyval list \<Rightarrow> int list \<Rightarrow> error + 'v pyval list" where
  "range_values df cols pad [] = Inr []"
| "range_values df cols pad (row_idx # row_idxs) =
     (case row_slice df row_idx cols of
        Inl e \<Rightarrow> Inl e
      | Inr vs \<Rightarrow>
          (case range_values df cols pad row_idxs of
             Inl e \<Rightarrow> Inl e
           | Inr rest \<Rightarrow> Inr (vs @ pad @ rest)))"

definition get_range_data_from_pandas ::
  "unicode_db \<Rightarrow> 'v dataframe \<Rightarrow> pystr \<Rightarrow> log_line list \<times> (error + 'v pyval)" where
  "get_range_data_from_pandas U df cell_range =
     (if colon \<notin> set cell_range then
        (case parse_cell U cell_range of
           Inl e \<Rightarrow> ([], Inl e)
         | Inr (col_str, row) \<Rightarrow>
             (case column_index_from_string U col_str of
                Inl e \<Rightarrow> ([], Inl e)
              | Inr ci \<Rightarrow>
                  (let col_idx = ci - 1
                   in if row > int (num_rows df)
                      then ([RowExceeds row cell_range (num_rows df)], Inr PyNone)
                      else if col_idx \<ge> int (num_cols df)
                      then ([ColumnExceeds col_str (col_idx + 1) cell_range (num_cols df)],
                            Inr PyNone)
                      else (case iloc df (row - 1) col_idx of
                              Inl e \<Rightarrow> ([], Inl e)
                            | Inr v \<Rightarrow> ([], Inr (Scalar v))))))
      else
        (case split colon cell_range of
           [start_cell, end_cell] \<Rightarrow>
             (case parse_cell U start_cell of
                Inl e \<Rightarrow> ([], Inl e)
              | Inr (start_col_str, start_row) \<Rightarrow>
             (case parse_cell U end_cell of
                Inl e \<Rightarrow> ([], Inl e)
              | Inr (end_col_str, end_row) \<Rightarrow>
             (case column_index_from_string U start_col_str of
                Inl e \<Rightarrow> ([], Inl e)
              | Inr sci \<Rightarrow>
             (case column_index_from_string U end_col_str of
                Inl e \<Rightarrow> ([], Inl e)
              | Inr eci \<Rightarrow>
                  (let start_col_idx = sci - 1;
                       end_col_idx = eci - 1
                   in if start_row > int (num_rows df) \<or> end_row > int (num_rows df)
                      then ([RangeRowsExceed cell_range (num_rows df)], Inr (PyList []))
                      else
                        (let warn = (if end_col_idx \<ge> int (num_cols df)
                                     then [RangeColumnsExceed cell_range (num_cols df)]
                                     else []);
                             pad = (if end_col_idx \<ge> int (num_cols df)
                                    then replicate (nat (end_col_idx + 1 - int (num_cols df)))
                                           PyNone
                                    else [])
                         in case range_values df
                                   (py_range start_col_idx
                                      (min (end_col_idx + 1) (int (num_cols df))))
                                   pad
                                   (py_range (start_row - 1)
                                      (min end_row (int (num_rows df)))) of
                              Inl e \<Rightarrow> (warn, Inl e)
                            | Inr values \<Rightarrow> (warn, Inr (PyList values))))))))
         | _ \<Rightarrow> ([], Inl ValueError)))"

section \<open>Worksheet and workbook extraction\<close>

text \<open>
  A \<open>rowdict\<close> is a Python dictionary: keys in insertion order, and an assignment to an
  existing key replaces the value in place, which is what \<open>AList.update\<close> does on an
  association list.
\<close>

type_synonym 'v rowdict = "(pystr \<times> 'v pyval) list"

definition sheet_key :: pystr where
  "sheet_key = str ''sheet''"

definition source_file_key :: pystr where
  "source_file_key = str ''source_file''"

text \<open>
  The loop over \<open>parsed_positions\<close>, lines 132 to 139 and, with another log call, lines
  380 to 386: \<open>on_error\<close> is the message of the \<open>except\<close> branch. Whatever the
  resolver printed before it returned or raised stays in the log.
\<close>

fun extract_fields ::
  "unicode_db \<Rightarrow> (pystr \<Rightarrow> error \<Rightarrow> log_line) \<Rightarrow> 'v dataframe \<Rightarrow>
   (pystr \<times> pystr) list \<Rightarrow> 'v rowdict \<Rightarrow> log_line list \<times> 'v rowdict" where
  "extract_fields U on_error df [] rowdict = ([], rowdict)"
| "extract_fields U on_error df ((cell_range, column_header) # rest) rowdict =
     (case get_range_data_from_pandas U df cell_range of
        (out, Inr val) \<Rightarrow>
          (case extract_fields U on_error df rest (AList.update column_header val rowdict) of
             (log, d) \<Rightarrow> (out @ log, d))
      | (out, Inl e) \<Rightarrow>
          (case extract_fields U on_error df rest (AList.update column_header PyNone rowdict) of
             (log, d) \<Rightarrow> (out @ on_error cell_range e # log, d)))"








subsection \<open>\<open>extract_excel_info_single_file\<close>\<close>

text \<open>The loop over the sheets, lines 123 to 141.\<close>

fun single_file_sheets ::
  "unicode_db \<Rightarrow> pystr \<Rightarrow> (pystr \<times> pystr) list \<Rightarrow> (pystr \<times> 'v dataframe option) list \<Rightarrow>
   log_line list \<times> 'v rowdict list" where
  "single_file_sheets U file_name parsed_positions [] = ([], [])"
| "single_file_sheets U file_name parsed_positions ((sheet_name, None) # sheets) =
     (case single_file_sheets U file_name parsed_positions sheets of
        (log, results) \<Rightarrow> (SheetReadFailed sheet_name ReadError # log, results))"
| "single_file_sheets U file_name parsed_positions ((sheet_name, Some df) # sheets) =
     (case extract_fields U (\<lambda>cell_range e. ExtractFailed cell_range sheet_name e) df
             parsed_positions
             [(sheet_key, PyStr sheet_name), (source_file_key, PyStr file_name)] of
        (out, rowdict) \<Rightarrow>
          (case single_file_sheets U file_name parsed_positions sheets of
             (log, results) \<Rightarrow> (out @ log, rowdict # results)))"


subsection \<open>\<open>ExcelExtractorApp.extract_to_single_file\<close> (merge mode)\<close>

text \<open>The loop over the sheets, lines 370 to 389.\<close>

fun merge_sheets ::
  "unicode_db \<Rightarrow> pystr \<Rightarrow> (pystr \<times> pystr) list \<Rightarrow> (pystr \<times> 'v dataframe option) list \<Rightarrow>
   log_line list \<times> 'v rowdict list" where
  "merge_sheets U file_name parsed_positions [] = ([], [])"
| "merge_sheets U file_name parsed_positions ((sheet_name, None) # sheets) =
     (case merge_sheets U file_name parsed_positions sheets of
        (log, results) \<Rightarrow> (GuiSheetReadFailed sheet_name ReadError # log, results))"
| "merge_sheets U file_name parsed_positions ((sheet_name, Some df) # sheets) =
     (case extract_fields U GuiExtractFailed df parsed_positions
             [(sheet_key, PyStr sheet_name), (source_file_key, PyStr file_name)] of
        (out, rowdict) \<Rightarrow>
          (case merge_sheets U file_name parsed_positions sheets of
             (log, results) \<Rightarrow> (out @ SheetExtracted sheet_name # log, rowdict # results)))"



subsection \<open>\<open>ExcelExtractorApp.extract_to_multiple_files\<close> (per-file mode)\<close>



section \<open>The specification's reading of the spec parser\<close>

text \<open>
  The specification describes the parser by split points: every dash of the line is a
  candidate, the part before it is the expression and the part after it the field name;
  the candidates are tried from the rightmost dash to the left and the first whose left
  side looks like a cell wins; with no such candidate both components are the line.
\<close>

definition dash_positions :: "pystr \<Rightarrow> nat list" where
  "dash_positions arg = filter (\<lambda>k. arg ! k = dash) [0..<length arg]"

definition split_at :: "pystr \<Rightarrow> nat \<Rightarrow> pystr \<times> pystr" where
  "split_at arg k = (take k arg, drop (Suc k) arg)"

definition spec_parse :: "unicode_db \<Rightarrow> pystr \<Rightarrow> pystr \<times> pystr" where
  "spec_parse U arg =
     (case find (\<lambda>k. looks_like_cell U (take k arg)) (rev (dash_positions arg)) of
        None \<Rightarrow> (arg, arg)
      | Some k \<Rightarrow> split_at arg k)"

text \<open>The candidates of a line from left to right, by recursion on the line.\<close>

fun candidates :: "pystr \<Rightarrow> (pystr \<times> pystr) list" where
  "candidates [] = []"
| "candidates (c # cs) =
     (if c = dash then [([], cs)] else []) @ map (\<lambda>(l, r). (c # l, r)) (candidates cs)"

definition cand :: "pystr list \<Rightarrow> nat \<Rightarrow> pystr \<times> pystr" where
  "cand parts i = (join dash (take i parts), join dash (drop i parts))"

section \<open>Coordinates as the specification writes them\<close>

text \<open>
  A well-formed cell token is a non-empty run of ASCII letters followed by a non-empty
  run of ASCII digits; the letters name the column in bijective base 26 (\<open>A\<close> is 1,
  \<open>Z\<close> is 26, \<open>AA\<close> is 27), the digits are the row in decimal.
\<close>

definition ascii_letter :: "pychar \<Rightarrow> bool" where
  "ascii_letter c = ((65 \<le> c \<and> c \<le> 90) \<or> (97 \<le> c \<and> c \<le> 122))"

definition ascii_digit :: "pychar \<Rightarrow> bool" where
  "ascii_digit c = (48 \<le> c \<and> c \<le> 57)"

definition well_formed_token :: "pystr \<Rightarrow> pystr \<Rightarrow> bool" where
  "well_formed_token letters digits =
     (letters \<noteq> [] \<and> list_all ascii_letter letters \<and>
      digits \<noteq> [] \<and> list_all ascii_digit digits)"

text \<open>
  The well-formed tokens that the code turns into a coordinate: the column name has at
  most three letters (the column lookup knows \<open>A\<close> to \<open>ZZZ\<close>) and the row has at
  most 4300 digits (the limit of \<open>int\<close>). On every other well-formed token the
  resolver raises \<open>ValueError\<close>.
\<close>

definition accepted_token :: "pystr \<Rightarrow> pystr \<Rightarrow> bool" where
  "accepted_token letters digits =
     (well_formed_token letters digits \<and> length letters \<le> 3 \<and>
      length digits \<le> int_max_str_digits)"

definition ascii_upper :: "pychar \<Rightarrow> pychar" where
  "ascii_upper c = (if 97 \<le> c then c - 32 else c)"

definition letter_value :: "pychar \<Rightarrow> int" where
  "letter_value c = (if c \<ge> 97 then int c - 96 else int c - 64)"

definition column_of :: "pystr \<Rightarrow> int" where
  "column_of letters = foldl (\<lambda>a c. 26 * a + letter_value c) 0 letters"

definition row_of :: "pystr \<Rightarrow> int" where
  "row_of digits = foldl (\<lambda>a c. 10 * a + (int c - 48)) 0 digits"

section \<open>Sample data\<close>

text \<open>
  A fragment of the character database (the CJK unified ideographs are letters), two
  small grids, a platform with POSIX-like paths and a folder of three workbooks, one of
  which cannot be opened.
\<close>

definition sample_db :: unicode_db where
  "sample_db = \<lparr>db_isdigit = (\<lambda>c. False), db_isalpha = (\<lambda>c. 19968 \<le> c \<and> c \<le> 40959),
                 db_decimal = (\<lambda>c. None), db_upper = (\<lambda>c. [c])\<rparr>"

definition grid_1x1 :: "int dataframe" where
  "grid_1x1 = \<lparr>num_rows = 1, num_cols = 1, cell = (\<lambda>r c. 7)\<rparr>"

definition grid_3x2 :: "int dataframe" where
  "grid_3x2 = \<lparr>num_rows = 3, num_cols = 2, cell = (\<lambda>r c. int (10 * r + c))\<rparr>"




section \<open>The specification's reading of the extraction\<close>

text \<open>
  What a spec contributes to the record: the resolved value, or the missing marker when
  resolution raised.
\<close>

definition resolved :: "unicode_db \<Rightarrow> 'v dataframe \<Rightarrow> pystr \<Rightarrow> 'v pyval" where
  "resolved U df cell_range =
     (case snd (get_range_data_from_pandas U df cell_range) of
        Inl e \<Rightarrow> PyNone
      | Inr v \<Rightarrow> v)"

definition set_field :: "unicode_db \<Rightarrow> 'v dataframe \<Rightarrow> 'v rowdict \<Rightarrow> pystr \<times> pystr \<Rightarrow> 'v rowdict" where
  "set_field U df d spec = AList.update (snd spec) (resolved U df (fst spec)) d"

text \<open>
  The record of one worksheet: start from the two reserved keys and set the field of
  each spec in declaration order.
\<close>

definition worksheet_record ::
  "unicode_db \<Rightarrow> pystr \<Rightarrow> (pystr \<times> pystr) list \<Rightarrow> pystr \<Rightarrow> 'v dataframe \<Rightarrow> 'v rowdict" where
  "worksheet_record U file_name parsed_positions sheet_name df =
     foldl (set_field U df)
       [(sheet_key, PyStr sheet_name), (source_file_key, PyStr file_name)]
       parsed_positions"

text \<open>The sheets of a workbook that could be read, in the workbook's order.\<close>

fun readable :: "(pystr \<times> 'v dataframe option) list \<Rightarrow> (pystr \<times> 'v dataframe) list" where
  "readable [] = []"
| "readable ((sheet_name, None) # sheets) = readable sheets"
| "readable ((sheet_name, Some df) # sheets) = (sheet_name, df) # readable sheets"




section \<open>The spec parser agrees with the specification\<close>

lemma split_not_Nil: "split sep s \<noteq> []"
  by (induction s) (auto split: list.splits)

lemma join_Cons: "ps \<noteq> [] \<Longrightarrow> join sep (p # ps) = p @ sep # join sep ps"
  by (cases ps) simp_all

lemma join_Cons_hd: "join sep ((c # p) # ps) = c # join sep (p # ps)"
  by (cases ps) simp_all

lemma join_split: "join sep (split sep s) = s"
proof (induction s)
  case Nil
  show ?case by simp
next
  case (Cons c cs)
  obtain p ps where sp: "split sep cs = p # ps"
    using split_not_Nil [of sep cs] by (cases "split sep cs") auto
  show ?case
  proof (cases "c = sep")
    case True
    then show ?thesis using Cons sp by (simp add: join_Cons)
  next
    case False
    then show ?thesis using Cons sp by (simp add: join_Cons_hd)
  qed
qed

lemma upt_1_Suc: "0 < m \<Longrightarrow> [1..<Suc m] = 1 # map Suc [1..<m]"
  by (metis One_nat_def map_Suc_upt upt_conv_Cons zero_less_Suc Suc_less_eq)

text \<open>
  Joining the first \<open>i\<close> parts and the remaining parts of the split line gives, for
  \<open>i\<close> from 1, the candidates of the line from left to right.
\<close>

lemma cands_split:
  "map (cand (split dash s)) [1..<length (split dash s)] = candidates s"
proof (induction s)
  case Nil
  show ?case by simp
next
  case (Cons c cs)
  obtain p ps where sp: "split dash cs = p # ps"
    using split_not_Nil [of dash cs] by (cases "split dash cs") auto
  show ?case
  proof (cases "c = dash")
    case True
    have len: "[1..<length (split dash (c # cs))] = 1 # map Suc [1..<length (split dash cs)]"
    proof -
      have "length (split dash (c # cs)) = Suc (length (split dash cs))" using True by simp
      moreover have "0 < length (split dash cs)" using sp by simp
      ultimately show ?thesis by (simp only: upt_1_Suc)
    qed
    have first: "cand (split dash (c # cs)) 1 = ([], cs)"
      using True join_split [of dash cs] by (simp add: cand_def)
    have rest: "cand (split dash (c # cs)) (Suc i) = (\<lambda>(l, r). (c # l, r)) (cand (split dash cs) i)"
      if "1 \<le> i" for i
    proof -
      have "take i (split dash cs) \<noteq> []" using that sp by (cases i) auto
      then show ?thesis using True by (simp add: cand_def join_Cons)
    qed
    have m: "map (cand (split dash (c # cs))) (map Suc [1..<length (split dash cs)])
        = map (\<lambda>(l, r). (c # l, r)) (map (cand (split dash cs)) [1..<length (split dash cs)])"
      using rest by (auto simp del: split.simps)
    have "map (cand (split dash (c # cs))) [1..<length (split dash (c # cs))]
        = cand (split dash (c # cs)) 1
          # map (cand (split dash (c # cs))) (map Suc [1..<length (split dash cs)])"
      by (simp only: len list.map)
    also have "\<dots> = ([], cs) # map (\<lambda>(l, r). (c # l, r)) (candidates cs)"
      by (simp only: first m Cons.IH)
    also have "\<dots> = candidates (c # cs)"
      using True by simp
    finally show ?thesis .
  next
    case False
    have sp': "split dash (c # cs) = (c # p) # ps" using False sp by simp
    have rest: "cand (split dash (c # cs)) i = (\<lambda>(l, r). (c # l, r)) (cand (split dash cs) i)"
      if i1: "1 \<le> i" for i
    proof -
      obtain j where j: "i = Suc j" using i1 by (cases i) auto
      show ?thesis unfolding sp' sp j by (simp add: cand_def join_Cons_hd)
    qed
    have len: "length (split dash (c # cs)) = length (split dash cs)"
      unfolding sp' sp by simp
    have "map (cand (split dash (c # cs))) [1..<length (split dash (c # cs))]
        = map (\<lambda>i. (\<lambda>(l, r). (c # l, r)) (cand (split dash cs) i)) [1..<length (split dash cs)]"
      unfolding len by (rule map_cong) (auto simp only: rest atLeastLessThan_iff set_upt)
    also have "\<dots> = map (\<lambda>(l, r). (c # l, r)) (map (cand (split dash cs)) [1..<length (split dash cs)])"
      by (simp only: map_map comp_def)
    also have "\<dots> = candidates (c # cs)"
      using False by (simp only: Cons.IH) simp
    finally show ?thesis .
  qed
qed

lemma dash_positions_Cons:
  "dash_positions (c # cs) = (if c = dash then [0] else []) @ map Suc (dash_positions cs)"
proof -
  have "[0..<length (c # cs)] = 0 # map Suc [0..<length cs]"
    by (simp add: upt_conv_Cons map_Suc_upt del: upt_Suc)
  then show ?thesis by (simp add: dash_positions_def filter_map comp_def)
qed

lemma candidates_positions: "candidates s = map (split_at s) (dash_positions s)"
proof (induction s)
  case Nil
  show ?case by (simp add: dash_positions_def)
next
  case (Cons c cs)
  show ?case by (simp add: dash_positions_Cons Cons split_at_def comp_def)
qed

lemma find_split_find:
  "find_split U parts ns = find (\<lambda>p. looks_like_cell U (fst p)) (map (cand parts) ns)"
  by (induction ns) (simp_all add: cand_def Let_def)

lemma find_map: "find P (map f xs) = map_option f (find (P \<circ> f) xs)"
  by (induction xs) simp_all

lemma parse_position_arg_eq: "parse_position_arg U arg = spec_parse U arg"
proof (cases "dash \<in> set arg")
  case False
  then have "\<forall>k<length arg. arg ! k \<noteq> dash"
    by (metis nth_mem)
  then have "dash_positions arg = []"
    by (simp add: dash_positions_def filter_empty_conv)
  then show ?thesis using False by (simp add: parse_position_arg_def spec_parse_def)
next
  case True
  have "find_split U (split dash arg) (rev [1..<length (split dash arg)])
      = find (\<lambda>p. looks_like_cell U (fst p))
          (rev (map (cand (split dash arg)) [1..<length (split dash arg)]))"
    by (simp only: find_split_find rev_map)
  also have "\<dots> = find (\<lambda>p. looks_like_cell U (fst p))
          (map (split_at arg) (rev (dash_positions arg)))"
    by (simp only: cands_split candidates_positions rev_map)
  also have "\<dots> = map_option (split_at arg)
       (find (\<lambda>k. looks_like_cell U (take k arg)) (rev (dash_positions arg)))"
    by (simp add: find_map comp_def split_at_def)
  finally show ?thesis using True
    by (simp add: parse_position_arg_def spec_parse_def split: option.splits)
qed

lemmas parse_eval =
  parse_position_arg_def str_def dash_def looks_like_cell_def char_isdigit_def
  char_isalpha_def

text \<open>
  Claim C1. A line without a dash is its own expression and field name. Otherwise the
  result is the split at the rightmost dash whose left side holds a digit and a letter,
  and the whole line twice when no dash qualifies; this holds for every line of the
  list. The four examples of the specification come out as stated: the lines
  F4-(four ideographs), G15-(three ideographs and a percent sign), F1:P1-Header and
  NoDashHere.
\<close>

theorem parse_position_args_spec:
  "(dash \<notin> set arg \<longrightarrow> parse_position_arg U arg = (arg, arg)) \<and>
   parse_position_arg U arg =
     (case find (\<lambda>k. looks_like_cell U (take k arg)) (rev (dash_positions arg)) of
        None \<Rightarrow> (arg, arg)
      | Some k \<Rightarrow> (take k arg, drop (Suc k) arg)) \<and>
   parse_position_args U position_args = map (spec_parse U) position_args \<and>
   parse_position_arg U (str ''F4-'' @ [26679, 21697, 21517, 31216])
     = (str ''F4'', [26679, 21697, 21517, 31216]) \<and>
   parse_position_arg U (str ''G15-'' @ [23792, 38754, 31215, 37])
     = (str ''G15'', [23792, 38754, 31215, 37]) \<and>
   parse_position_arg U (str ''F1:P1-Header'') = (str ''F1:P1'', str ''Header'') \<and>
   parse_position_arg U (str ''NoDashHere'') = (str ''NoDashHere'', str ''NoDashHere'')"
proof -
  have a: "dash \<notin> set arg \<longrightarrow> parse_position_arg U arg = (arg, arg)"
    by (simp add: parse_position_arg_def)
  have b: "parse_position_arg U arg =
     (case find (\<lambda>k. looks_like_cell U (take k arg)) (rev (dash_positions arg)) of
        None \<Rightarrow> (arg, arg)
      | Some k \<Rightarrow> (take k arg, drop (Suc k) arg))"
    by (simp add: parse_position_arg_eq spec_parse_def split_at_def split: option.splits)
  have c: "parse_position_args U position_args = map (spec_parse U) position_args"
    by (simp add: parse_position_args_def parse_position_arg_eq)
  have e1: "parse_position_arg U (str ''F4-'' @ [26679, 21697, 21517, 31216])
     = (str ''F4'', [26679, 21697, 21517, 31216])"
    by (simp add: parse_eval)
  have e2: "parse_position_arg U (str ''G15-'' @ [23792, 38754, 31215, 37])
     = (str ''G15'', [23792, 38754, 31215, 37])"
    by (simp add: parse_eval)
  have e3: "parse_position_arg U (str ''F1:P1-Header'') = (str ''F1:P1'', str ''Header'')"
    by (simp add: parse_eval)
  have e4: "parse_position_arg U (str ''NoDashHere'') = (str ''NoDashHere'', str ''NoDashHere'')"
    by (simp add: parse_eval)
  from a b c e1 e2 e3 e4 show ?thesis by (intro conjI)
qed

text \<open>
  With two dashes the rightmost one is tried first: the left side E15-x holds a digit and
  a letter, so the field name is y. When only the left side of the first dash qualifies,
  the split is there.
\<close>

theorem parse_position_args_spec_witness:
  "dash \<notin> set (str ''N7'') \<and>
   parse_position_arg sample_db (str ''N7'') = (str ''N7'', str ''N7'') \<and>
   parse_position_arg sample_db (str ''E15-x-y'') = (str ''E15-x'', str ''y'') \<and>
   parse_position_args sample_db [str ''7-A-b'', str ''--'']
     = [(str ''7-A'', str ''b''), (str ''--'', str ''--'')]"
proof -
  have n: "dash \<notin> set (str ''N7'')"
    by (simp add: str_def dash_def)
  have "parse_position_arg sample_db (str ''N7'') = (str ''N7'', str ''N7'')"
    using parse_position_args_spec [of "str ''N7''" sample_db] n by blast
  moreover have "parse_position_arg sample_db (str ''E15-x-y'') = (str ''E15-x'', str ''y'')"
    using parse_position_args_spec [of "str ''E15-x-y''" sample_db]
    by (simp add: dash_positions_def str_def dash_def looks_like_cell_def char_isdigit_def
        char_isalpha_def)
  moreover have "parse_position_args sample_db [str ''7-A-b'', str ''--'']
     = [(str ''7-A'', str ''b''), (str ''--'', str ''--'')]"
    using parse_position_args_spec [of "[]" sample_db "[str ''7-A-b'', str ''--'']"]
    by (simp add: spec_parse_def split_at_def dash_positions_def str_def dash_def
        looks_like_cell_def char_isdigit_def char_isalpha_def)
  ultimately show ?thesis using n by blast
qed

section \<open>Coordinate parsing and range resolution\<close>

lemma scan_cell_skip:
  "\<forall>i\<in>set xs. \<not> str_isdigit U (drop i s) \<Longrightarrow> scan_cell U s (xs @ ys) = scan_cell U s ys"
  by (induction xs) simp_all

lemma scan_cell_none:
  "\<forall>i\<in>set xs. \<not> str_isdigit U (drop i s) \<Longrightarrow> scan_cell U s xs = Inl ValueError"
  by (induction xs) simp_all

lemma py_int_error: "py_int U s = Inl e \<Longrightarrow> e = ValueError"
  by (auto simp: py_int_def split: option.splits if_splits)

lemma scan_cell_error: "scan_cell U s xs = Inl e \<Longrightarrow> e = ValueError"
  by (induction xs) (auto split: if_splits sum.splits dest: py_int_error)

lemma parse_cell_error: "parse_cell U s = Inl e \<Longrightarrow> e = ValueError"
  unfolding parse_cell_def by (rule scan_cell_error)

lemma parse_cell_malformed:
  assumes "t = [] \<or> (\<forall>i<length t. \<not> str_isdigit U (drop i t))"
  shows "parse_cell U t = Inl ValueError"
  unfolding parse_cell_def using assms by (intro scan_cell_none) auto

lemma split_no_sep: "sep \<notin> set s \<Longrightarrow> split sep s = [s]"
  by (induction s) auto

lemma split_append_sep: "sep \<notin> set a \<Longrightarrow> split sep (a @ sep # b) = a # split sep b"
  by (induction a) auto

lemma split_two: "sep \<notin> set a \<Longrightarrow> sep \<notin> set b \<Longrightarrow> split sep (a @ sep # b) = [a, b]"
  by (simp add: split_append_sep split_no_sep)

lemma resolve_single_malformed:
  assumes "parse_cell U t = Inl ValueError" "colon \<notin> set t"
  shows "get_range_data_from_pandas U df t = ([], Inl ValueError)"
  using assms by (simp add: get_range_data_from_pandas_def)

lemma resolve_range_start_malformed:
  assumes "parse_cell U t = Inl ValueError" "colon \<notin> set t" "colon \<notin> set other"
  shows "get_range_data_from_pandas U df (t @ colon # other) = ([], Inl ValueError)"
  using assms by (simp add: get_range_data_from_pandas_def split_two)

lemma resolve_range_end_malformed:
  assumes "parse_cell U t = Inl ValueError" "colon \<notin> set t" "colon \<notin> set other"
  shows "get_range_data_from_pandas U df (other @ colon # t) = ([], Inl ValueError)"
proof (cases "parse_cell U other")
  case (Inl e)
  then have "e = ValueError" by (rule parse_cell_error)
  with Inl assms show ?thesis by (simp add: get_range_data_from_pandas_def split_two)
next
  case (Inr p)
  with assms show ?thesis
    by (cases p) (simp add: get_range_data_from_pandas_def split_two)
qed

text \<open>
  Claim C7. A token that is empty, or none of whose suffixes consists of digits only,
  is refused with \<open>ValueError\<close>: by the coordinate scan itself, by the resolver on a
  single-cell expression, and by the resolver on a range expression in which the token
  is the start or the end point.
\<close>

theorem malformed_token_raises:
  assumes "t = [] \<or> (\<forall>i<length t. \<not> str_isdigit U (drop i t))"
  shows "parse_cell U t = Inl ValueError \<and>
         (colon \<notin> set t \<longrightarrow> get_range_data_from_pandas U df t = ([], Inl ValueError)) \<and>
         (colon \<notin> set t \<and> colon \<notin> set other \<longrightarrow>
            get_range_data_from_pandas U df (t @ colon # other) = ([], Inl ValueError) \<and>
            get_range_data_from_pandas U df (other @ colon # t) = ([], Inl ValueError))"
proof -
  have p: "parse_cell U t = Inl ValueError"
    using assms by (rule parse_cell_malformed)
  show ?thesis
    using p resolve_single_malformed [OF p] resolve_range_start_malformed [OF p]
      resolve_range_end_malformed [OF p]
    by blast
qed

lemmas resolve_eval =
  get_range_data_from_pandas_def str_def colon_def parse_cell_def str_isdigit_def
  char_isdigit_def py_int_def int_max_str_digits_def char_decimal_def column_index_from_string_def str_upper_def
  char_upper_def is_upper_letter_def py_range_def iloc_def

text \<open>The token ABC has no digit at all.\<close>

theorem malformed_token_raises_witness:
  "parse_cell sample_db (str ''ABC'') = Inl ValueError \<and>
   get_range_data_from_pandas sample_db grid_3x2 (str ''ABC'') = ([], Inl ValueError) \<and>
   get_range_data_from_pandas sample_db grid_3x2 (str ''ABC:B2'') = ([], Inl ValueError) \<and>
   get_range_data_from_pandas sample_db grid_3x2 (str ''A1:ABC'') = ([], Inl ValueError)"
proof -
  have h: "\<forall>i<length (str ''ABC''). \<not> str_isdigit sample_db (drop i (str ''ABC''))"
    by (auto simp: str_def str_isdigit_def char_isdigit_def less_Suc_eq)
  have c1: "colon \<notin> set (str ''ABC'')" and c2: "colon \<notin> set (str ''B2'')"
    and c3: "colon \<notin> set (str ''A1'')"
    by (simp_all add: str_def colon_def)
  have e1: "str ''ABC'' @ colon # str ''B2'' = str ''ABC:B2''"
    and e2: "str ''A1'' @ colon # str ''ABC'' = str ''A1:ABC''"
    by (simp_all add: str_def colon_def)
  show ?thesis
    using h c1 c2 c3
      malformed_token_raises [of "str ''ABC''" sample_db grid_3x2 "str ''B2''"]
      malformed_token_raises [of "str ''ABC''" sample_db grid_3x2 "str ''A1''"]
    unfolding e1 [symmetric] e2 [symmetric] by blast
qed

lemma digits_value_ascii:
  "list_all ascii_digit d \<Longrightarrow>
   digits_value U acc d = Some (foldl (\<lambda>a c. 10 * a + (int c - 48)) acc d)"
proof (induction d arbitrary: acc)
  case Nil
  show ?case by simp
next
  case (Cons c cs)
  from Cons.prems have cd: "ascii_digit c" and cs: "list_all ascii_digit cs"
    by simp_all
  from cd have c: "48 \<le> c" "c \<le> 57"
    by (simp_all add: ascii_digit_def)
  have "char_decimal U c = Some (c - 48)" using c by (simp add: char_decimal_def)
  moreover have "int (c - 48) = int c - 48" using c by simp
  ultimately show ?case using Cons.IH [OF cs] by simp
qed

lemma py_int_ascii:
  "list_all ascii_digit d \<Longrightarrow>
   py_int U d = (if length d > int_max_str_digits then Inl ValueError else Inr (row_of d))"
  by (simp add: py_int_def row_of_def digits_value_ascii)

lemma ascii_digit_isdigit: "ascii_digit c \<Longrightarrow> char_isdigit U c"
  by (simp add: ascii_digit_def char_isdigit_def)

lemma ascii_letter_not_digit: "ascii_letter c \<Longrightarrow> \<not> char_isdigit U c"
  by (auto simp: ascii_letter_def char_isdigit_def)

lemma str_isdigit_ascii: "d \<noteq> [] \<Longrightarrow> list_all ascii_digit d \<Longrightarrow> str_isdigit U d"
  by (auto simp: str_isdigit_def list_all_iff ascii_digit_isdigit)

lemma letters_suffix_not_digit:
  assumes "list_all ascii_letter l" "i < length l"
  shows "\<not> str_isdigit U (drop i (l @ d))"
proof -
  have "drop i (l @ d) = l ! i # drop (Suc i) l @ d"
    using assms(2) by (simp add: Cons_nth_drop_Suc)
  moreover have "ascii_letter (l ! i)"
    using assms by (simp add: list_all_length)
  ultimately show ?thesis
    by (simp add: str_isdigit_def ascii_letter_not_digit)
qed

text \<open>
  On a well-formed token the scan stops at the first digit: the letters are the column
  name and the digits go to \<open>int\<close>, which refuses more than 4300 of them.
\<close>

lemma parse_cell_well_formed:
  assumes "well_formed_token l d"
  shows "parse_cell U (l @ d)
       = (if length d > int_max_str_digits then Inl ValueError else Inr (l, row_of d))"
proof -
  from assms have l: "l \<noteq> []" "list_all ascii_letter l" and d: "d \<noteq> []" "list_all ascii_digit d"
    by (simp_all add: well_formed_token_def)
  have l1: "1 \<le> length l" using l(1) by (cases l) simp_all
  have d1: "length l < length (l @ d)" using d(1) by (cases d) simp_all
  have "[1..<length (l @ d)] = [1..<length l] @ length l # [Suc (length l)..<length (l @ d)]"
  proof -
    have "[1..<length l + length d] = [1..<length l] @ [length l..<length l + length d]"
      using l1 by (rule upt_add_eq_append)
    moreover have "[length l..<length l + length d]
        = length l # [Suc (length l)..<length l + length d]"
      using d1 by (simp add: upt_conv_Cons)
    ultimately show ?thesis by simp
  qed
  moreover have "\<forall>i\<in>set [1..<length l]. \<not> str_isdigit U (drop i (l @ d))"
    using l(2) letters_suffix_not_digit [of l _ U d] by auto
  ultimately have "parse_cell U (l @ d)
      = scan_cell U (l @ d) (length l # [Suc (length l)..<length (l @ d)])"
    by (simp only: parse_cell_def scan_cell_skip)
  also have "\<dots> = (if length d > int_max_str_digits then Inl ValueError else Inr (l, row_of d))"
    using d by (simp add: str_isdigit_ascii py_int_ascii)
  finally show ?thesis .
qed

lemma str_upper_letters: "list_all ascii_letter l \<Longrightarrow> str_upper U l = map ascii_upper l"
  by (induction l) (auto simp: str_upper_def char_upper_def ascii_letter_def ascii_upper_def)

lemma ascii_upper_is_upper: "ascii_letter c \<Longrightarrow> is_upper_letter (ascii_upper c)"
  by (auto simp: ascii_letter_def is_upper_letter_def ascii_upper_def)

lemma ascii_upper_value: "ascii_letter c \<Longrightarrow> int (ascii_upper c) - 64 = letter_value c"
  by (auto simp: ascii_letter_def ascii_upper_def letter_value_def)

lemma foldl_ascii_upper:
  "list_all ascii_letter l \<Longrightarrow>
   foldl (\<lambda>a c. 26 * a + (int c - 64)) acc (map ascii_upper l) = foldl (\<lambda>a c. 26 * a + letter_value c) acc l"
  by (induction l arbitrary: acc) (simp_all add: ascii_upper_value)

text \<open>The column lookup on a run of letters: a name of more than three letters is refused.\<close>

lemma column_index_well_formed:
  assumes "well_formed_token l d"
  shows "column_index_from_string U l
       = (if length l > 3 then Inl ValueError else Inr (column_of l))"
proof -
  from assms have l: "l \<noteq> []" "list_all ascii_letter l"
    by (simp_all add: well_formed_token_def)
  have "1 \<le> length l" using l(1) by (cases l) simp_all
  moreover have "list_all is_upper_letter (map ascii_upper l)"
    using l(2) by (simp add: list_all_iff ascii_upper_is_upper)
  ultimately show ?thesis
    using l by (simp add: column_index_from_string_def str_upper_letters foldl_ascii_upper column_of_def)
qed

lemma well_formed_no_colon: "well_formed_token l d \<Longrightarrow> colon \<notin> set (l @ d)"
  by (auto simp: well_formed_token_def list_all_iff ascii_letter_def ascii_digit_def colon_def)

lemma foldl_letters_pos:
  "list_all ascii_letter l \<Longrightarrow> 0 \<le> acc \<Longrightarrow> l \<noteq> [] \<Longrightarrow>
   1 \<le> foldl (\<lambda>a c. 26 * a + letter_value c) acc l"
proof (induction l arbitrary: acc)
  case Nil
  then show ?case by simp
next
  case (Cons c cs)
  then have "1 \<le> letter_value c" by (auto simp: ascii_letter_def letter_value_def)
  then have s: "1 \<le> 26 * acc + letter_value c" using Cons.prems(2) by simp
  show ?case
  proof (cases cs)
    case Nil
    then show ?thesis using s by simp
  next
    case (Cons a list)
    then show ?thesis using Cons.IH [of "26 * acc + letter_value c"] Cons.prems(1) s by simp
  qed
qed

lemma column_of_pos: "well_formed_token l d \<Longrightarrow> 1 \<le> column_of l"
  by (simp add: well_formed_token_def column_of_def foldl_letters_pos)

lemma foldl_digits_nonneg:
  "list_all ascii_digit d \<Longrightarrow> 0 \<le> acc \<Longrightarrow> 0 \<le> foldl (\<lambda>a c. 10 * a + (int c - 48)) acc d"
  by (induction d arbitrary: acc) (simp_all add: ascii_digit_def)

lemma row_of_nonneg: "well_formed_token l d \<Longrightarrow> 0 \<le> row_of d"
  by (simp add: well_formed_token_def row_of_def foldl_digits_nonneg)

lemma accepted_well_formed: "accepted_token l d \<Longrightarrow> well_formed_token l d"
  by (simp add: accepted_token_def)

lemma parse_cell_accepted: "accepted_token l d \<Longrightarrow> parse_cell U (l @ d) = Inr (l, row_of d)"
  by (simp add: accepted_token_def parse_cell_well_formed)

lemma column_index_accepted:
  "accepted_token l d \<Longrightarrow> column_index_from_string U l = Inr (column_of l)"
  using column_index_well_formed [of l d U] by (simp add: accepted_token_def)

lemma accepted_no_colon: "accepted_token l d \<Longrightarrow> colon \<notin> set (l @ d)"
  by (rule well_formed_no_colon) (rule accepted_well_formed)

lemma accepted_column_pos: "accepted_token l d \<Longrightarrow> 1 \<le> column_of l"
  by (rule column_of_pos) (rule accepted_well_formed)

text \<open>The resolver on a single well-formed token, before the bounds are looked at.\<close>

lemma resolve_single_well_formed:
  assumes "well_formed_token letters digits"
  shows "get_range_data_from_pandas U df (letters @ digits) =
    (if length letters > 3 \<or> length digits > int_max_str_digits then ([], Inl ValueError)
     else if row_of digits > int (num_rows df)
     then ([RowExceeds (row_of digits) (letters @ digits) (num_rows df)], Inr PyNone)
     else if column_of letters - 1 \<ge> int (num_cols df)
     then ([ColumnExceeds letters (column_of letters) (letters @ digits) (num_cols df)], Inr PyNone)
     else (case iloc df (row_of digits - 1) (column_of letters - 1) of
             Inl e \<Rightarrow> ([], Inl e)
           | Inr v \<Rightarrow> ([], Inr (Scalar v))))"
  using well_formed_no_colon [OF assms]
  by (simp add: get_range_data_from_pandas_def parse_cell_well_formed [OF assms]
      column_index_well_formed [OF assms] del: set_append)

lemma iloc_inside:
  assumes "1 \<le> c" "c - 1 < int (num_cols df)" "0 \<le> r" "r \<le> int (num_rows df)"
  shows "iloc df (r - 1) (c - 1) =
    (if 1 \<le> r then Inr (cell df (nat (r - 1)) (nat (c - 1)))
     else if num_rows df = 0 then Inl IndexError
     else Inr (cell df (num_rows df - 1) (nat (c - 1))))"
proof (cases "1 \<le> r")
  case True
  then show ?thesis using assms by (simp add: iloc_def)
next
  case False
  then have r: "r = 0" using assms(3) by simp
  have "nat (int (num_rows df) - 1) = num_rows df - 1" by simp
  then show ?thesis using assms(1,2) r by (simp add: iloc_def)
qed

text \<open>
  Claim C4, amended. The resolver on a well-formed single-cell token, case by case. A
  column name of more than three letters or a row of more than 4300 digits raises
  \<open>ValueError\<close>. Otherwise: a row beyond the sheet gives the missing marker and one
  warning; so does a column index beyond the sheet; with the row at least 1 and row and
  column inside the sheet the result is the scalar at the 0-based position (row - 1,
  column - 1), and nothing is logged. The remaining case is row 0 with the column
  inside: the index is -1, which \<open>iloc\<close> counts from the end, so the last row is read,
  and \<open>IndexError\<close> is raised when the sheet has no row.
\<close>

theorem single_cell_resolution:
  assumes "well_formed_token letters digits"
  shows "get_range_data_from_pandas U df (letters @ digits) =
    (if length letters > 3 \<or> length digits > int_max_str_digits then ([], Inl ValueError)
     else if row_of digits > int (num_rows df)
     then ([RowExceeds (row_of digits) (letters @ digits) (num_rows df)], Inr PyNone)
     else if column_of letters - 1 \<ge> int (num_cols df)
     then ([ColumnExceeds letters (column_of letters) (letters @ digits) (num_cols df)], Inr PyNone)
     else if 1 \<le> row_of digits
     then ([], Inr (Scalar (cell df (nat (row_of digits - 1)) (nat (column_of letters - 1)))))
     else if num_rows df = 0 then ([], Inl IndexError)
     else ([], Inr (Scalar (cell df (num_rows df - 1) (nat (column_of letters - 1))))))"
proof -
  have c: "1 \<le> column_of letters" using assms by (rule column_of_pos)
  have r: "0 \<le> row_of digits" using assms by (rule row_of_nonneg)
  show ?thesis
    using iloc_inside [OF c _ r, of df]
    by (simp add: resolve_single_well_formed [OF assms])
qed

text \<open>
  On the 3 by 2 grid: B2 is inside, a4 is below the last row, AA03 is right of the last
  column.
\<close>

theorem single_cell_resolution_witness:
  "well_formed_token (str ''B'') (str ''2'') \<and>
   get_range_data_from_pandas sample_db grid_3x2 (str ''B2'') = ([], Inr (Scalar 11)) \<and>
   well_formed_token (str ''a'') (str ''4'') \<and>
   get_range_data_from_pandas sample_db grid_3x2 (str ''a4'')
     = ([RowExceeds 4 (str ''a4'') 3], Inr PyNone) \<and>
   well_formed_token (str ''AA'') (str ''03'') \<and>
   get_range_data_from_pandas sample_db grid_3x2 (str ''AA03'')
     = ([ColumnExceeds (str ''AA'') 27 (str ''AA03'') 2], Inr PyNone)"
proof -
  have w: "well_formed_token (str ''B'') (str ''2'')" "well_formed_token (str ''a'') (str ''4'')"
    "well_formed_token (str ''AA'') (str ''03'')"
    by (simp_all add: well_formed_token_def str_def ascii_letter_def ascii_digit_def)
  have v: "row_of (str ''2'') = 2" "column_of (str ''B'') = 2" "row_of (str ''4'') = 4"
    "column_of (str ''a'') = 1" "row_of (str ''03'') = 3" "column_of (str ''AA'') = 27"
    by (simp_all add: row_of_def column_of_def letter_value_def str_def)
  have n: "length (str ''B'') = 1" "length (str ''2'') = 1" "length (str ''a'') = 1"
    "length (str ''4'') = 1" "length (str ''AA'') = 2" "length (str ''03'') = 2"
    by (simp_all add: str_def)
  have s: "str ''B'' @ str ''2'' = str ''B2''" "str ''a'' @ str ''4'' = str ''a4''"
    "str ''AA'' @ str ''03'' = str ''AA03''"
    by (simp_all add: str_def)
  show ?thesis
    using w single_cell_resolution [OF w(1), of sample_db grid_3x2]
      single_cell_resolution [OF w(2), of sample_db grid_3x2]
      single_cell_resolution [OF w(3), of sample_db grid_3x2]
    unfolding v n s by (simp add: grid_3x2_def int_max_str_digits_def)
qed

text \<open>
  Claim C4 as stated fails on three well-formed tokens. AAAA9 on the 3 by 2 grid has a
  row beyond the sheet, and the resolver raises \<open>ValueError\<close> instead of returning the
  missing marker, because line 27 converts the column name before the bounds are
  tested. The letter A followed by 4301 digits 1 raises \<open>ValueError\<close> in \<open>int\<close>. A0
  has its row and column within the claim's bounds, and the resolver returns the scalar
  of the last row, 20, which is not at a 0-based position (row - 1, column - 1).
\<close>

theorem single_cell_resolution_counterexample:
  "well_formed_token (str ''AAAA'') (str ''9'') \<and>
   get_range_data_from_pandas sample_db grid_3x2 (str ''AAAA9'') = ([], Inl ValueError) \<and>
   well_formed_token (str ''A'') (replicate 4301 49) \<and>
   get_range_data_from_pandas sample_db grid_3x2 (str ''A'' @ replicate 4301 49)
     = ([], Inl ValueError) \<and>
   well_formed_token (str ''A'') (str ''0'') \<and>
   get_range_data_from_pandas sample_db grid_3x2 (str ''A0'') = ([], Inr (Scalar 20))"
proof -
  have w: "well_formed_token (str ''AAAA'') (str ''9'')"
    "well_formed_token (str ''A'') (replicate 4301 49)"
    "well_formed_token (str ''A'') (str ''0'')"
    by (simp_all add: well_formed_token_def str_def ascii_letter_def ascii_digit_def
        list_all_iff)
  have a: "get_range_data_from_pandas sample_db grid_3x2 (str ''AAAA'' @ str ''9'')
      = ([], Inl ValueError)"
    by (simp add: resolve_single_well_formed [OF w(1)]) (simp add: str_def)
  have b: "get_range_data_from_pandas sample_db grid_3x2 (str ''A'' @ replicate 4301 49)
      = ([], Inl ValueError)"
    by (simp add: resolve_single_well_formed [OF w(2)] int_max_str_digits_def)
  have c: "get_range_data_from_pandas sample_db grid_3x2 (str ''A0'') = ([], Inr (Scalar 20))"
    by (simp add: resolve_eval grid_3x2_def)
  have s: "str ''AAAA'' @ str ''9'' = str ''AAAA9''" by (simp add: str_def)
  from w a b c show ?thesis unfolding s by simp
qed

text \<open>The resolver on a range of two well-formed tokens with a row beyond the sheet.\<close>

lemma resolve_range_rows:
  assumes "well_formed_token l1 d1" and "well_formed_token l2 d2"
    and "row_of d1 > int (num_rows df) \<or> row_of d2 > int (num_rows df)"
  shows "get_range_data_from_pandas U df (l1 @ d1 @ colon # l2 @ d2) =
    (if length l1 > 3 \<or> length d1 > int_max_str_digits \<or>
        length l2 > 3 \<or> length d2 > int_max_str_digits
     then ([], Inl ValueError)
     else ([RangeRowsExceed (l1 @ d1 @ colon # l2 @ d2) (num_rows df)], Inr (PyList [])))"
proof -
  have s: "split colon ((l1 @ d1) @ colon # (l2 @ d2)) = [l1 @ d1, l2 @ d2]"
    using well_formed_no_colon [OF assms(1)] well_formed_no_colon [OF assms(2)]
    by (rule split_two)
  have "colon \<in> set ((l1 @ d1) @ colon # (l2 @ d2))" by simp
  then have "get_range_data_from_pandas U df ((l1 @ d1) @ colon # (l2 @ d2)) =
    (if length l1 > 3 \<or> length d1 > int_max_str_digits \<or>
        length l2 > 3 \<or> length d2 > int_max_str_digits
     then ([], Inl ValueError)
     else ([RangeRowsExceed ((l1 @ d1) @ colon # (l2 @ d2)) (num_rows df)], Inr (PyList [])))"
    using assms(3)
    by (simp add: get_range_data_from_pandas_def s parse_cell_well_formed [OF assms(1)]
        parse_cell_well_formed [OF assms(2)] column_index_well_formed [OF assms(1)]
        column_index_well_formed [OF assms(2)] del: append_assoc)
  then show ?thesis by simp
qed

text \<open>
  Claim C3, amended. For a range of two well-formed tokens whose start row or end row
  lies beyond the sheet: when both column names have at most three letters and both
  rows at most 4300 digits, the resolver returns the empty list and logs one warning; it
  does not raise and returns no part of the range. When a column name or a row is
  longer, the resolver raises \<open>ValueError\<close>, since both end points are converted
  before the rows are tested.
\<close>

theorem range_rows_out_of_bounds:
  assumes "well_formed_token l1 d1" and "well_formed_token l2 d2"
    and "row_of d1 > int (num_rows df) \<or> row_of d2 > int (num_rows df)"
  shows "get_range_data_from_pandas U df (l1 @ d1 @ colon # l2 @ d2) =
    (if length l1 \<le> 3 \<and> length d1 \<le> int_max_str_digits \<and>
        length l2 \<le> 3 \<and> length d2 \<le> int_max_str_digits
     then ([RangeRowsExceed (l1 @ d1 @ colon # l2 @ d2) (num_rows df)], Inr (PyList []))
     else ([], Inl ValueError))"
  using resolve_range_rows [OF assms, of U] by (simp add: not_less)

text \<open>The range A1:B4 on the 3 by 2 grid: row 4 does not exist, rows 1 to 3 are dropped too.\<close>

theorem range_rows_out_of_bounds_witness:
  "well_formed_token (str ''A'') (str ''1'') \<and> well_formed_token (str ''B'') (str ''4'') \<and>
   (row_of (str ''1'') > int (num_rows grid_3x2) \<or> row_of (str ''4'') > int (num_rows grid_3x2)) \<and>
   get_range_data_from_pandas sample_db grid_3x2 (str ''A1:B4'')
     = ([RangeRowsExceed (str ''A1:B4'') 3], Inr (PyList []))"
proof -
  have w: "well_formed_token (str ''A'') (str ''1'')" "well_formed_token (str ''B'') (str ''4'')"
    by (simp_all add: well_formed_token_def str_def ascii_letter_def ascii_digit_def)
  have r: "row_of (str ''1'') > int (num_rows grid_3x2) \<or> row_of (str ''4'') > int (num_rows grid_3x2)"
    by (simp add: row_of_def str_def grid_3x2_def)
  have n: "length (str ''A'') = 1" "length (str ''1'') = 1" "length (str ''B'') = 1"
    "length (str ''4'') = 1" "num_rows grid_3x2 = 3"
    by (simp_all add: str_def grid_3x2_def)
  have s: "str ''A'' @ str ''1'' @ colon # str ''B'' @ str ''4'' = str ''A1:B4''"
    by (simp add: str_def colon_def)
  have "get_range_data_from_pandas sample_db grid_3x2 (str ''A1:B4'')
     = ([RangeRowsExceed (str ''A1:B4'') 3], Inr (PyList []))"
    using range_rows_out_of_bounds [OF w r, of sample_db]
    unfolding s n by (simp add: int_max_str_digits_def)
  with w r show ?thesis by simp
qed

text \<open>
  Claim C3 as stated fails on two ranges of well-formed tokens with a row beyond the 3
  by 2 grid: AAAA1:B9, whose start column has four letters, and A1:B followed by 4301
  digits 1. The resolver raises \<open>ValueError\<close> on both instead of returning the empty
  list.
\<close>

theorem range_rows_out_of_bounds_counterexample:
  "well_formed_token (str ''AAAA'') (str ''1'') \<and> well_formed_token (str ''B'') (str ''9'') \<and>
   row_of (str ''9'') > int (num_rows grid_3x2) \<and>
   get_range_data_from_pandas sample_db grid_3x2 (str ''AAAA1:B9'') = ([], Inl ValueError) \<and>
   well_formed_token (str ''A'') (str ''1'') \<and>
   well_formed_token (str ''B'') (replicate 4301 49) \<and>
   get_range_data_from_pandas sample_db grid_3x2 (str ''A1:B'' @ replicate 4301 49)
     = ([], Inl ValueError)"
proof -
  have w: "well_formed_token (str ''AAAA'') (str ''1'')" "well_formed_token (str ''B'') (str ''9'')"
    "well_formed_token (str ''A'') (str ''1'')" "well_formed_token (str ''B'') (replicate 4301 49)"
    by (simp_all add: well_formed_token_def str_def ascii_letter_def ascii_digit_def
        list_all_iff)
  have r: "row_of (str ''9'') > int (num_rows grid_3x2)"
    by (simp add: row_of_def str_def grid_3x2_def)
  have a: "get_range_data_from_pandas sample_db grid_3x2 (str ''AAAA1:B9'') = ([], Inl ValueError)"
    by (simp add: resolve_eval)
  have p: "parse_cell sample_db (str ''B'' @ replicate 4301 49) = Inl ValueError"
    by (simp add: parse_cell_well_formed [OF w(4)] int_max_str_digits_def)
  have c: "colon \<notin> set (str ''B'' @ replicate 4301 49)" "colon \<notin> set (str ''A1'')"
    by (simp_all add: str_def colon_def)
  have "get_range_data_from_pandas sample_db grid_3x2
          (str ''A1'' @ colon # str ''B'' @ replicate 4301 49) = ([], Inl ValueError)"
    using p c by (rule resolve_range_end_malformed)
  moreover have "str ''A1'' @ colon # str ''B'' @ replicate 4301 49
      = str ''A1:B'' @ replicate 4301 49"
    by (simp add: str_def colon_def)
  ultimately have b: "get_range_data_from_pandas sample_db grid_3x2
      (str ''A1:B'' @ replicate 4301 49) = ([], Inl ValueError)"
    by simp
  from w r a b show ?thesis by simp
qed

lemma row_slice_in_bounds:
  assumes "0 \<le> r" "r < int (num_rows df)" "\<forall>c\<in>set cols. 0 \<le> c \<and> c < int (num_cols df)"
  shows "row_slice df r cols = Inr (map (\<lambda>c. Scalar (cell df (nat r) (nat c))) cols)"
  using assms(3)
proof (induction cols)
  case Nil
  show ?case by simp
next
  case (Cons c cols)
  then have "iloc df r c = Inr (cell df (nat r) (nat c))"
    using assms(1,2) by (simp add: iloc_def)
  then show ?case using Cons by simp
qed

lemma range_values_in_bounds:
  assumes "\<forall>c\<in>set cols. 0 \<le> c \<and> c < int (num_cols df)"
    and "\<forall>r\<in>set rs. 0 \<le> r \<and> r < int (num_rows df)"
  shows "range_values df cols pad rs
       = Inr (concat (map (\<lambda>r. map (\<lambda>c. Scalar (cell df (nat r) (nat c))) cols @ pad) rs))"
  using assms(2)
proof (induction rs)
  case Nil
  show ?case by simp
next
  case (Cons r rs)
  then have "row_slice df r cols = Inr (map (\<lambda>c. Scalar (cell df (nat r) (nat c))) cols)"
    using assms(1) by (simp add: row_slice_in_bounds)
  then show ?case using Cons by simp
qed

lemma length_concat_const:
  "\<forall>x\<in>set xs. length (f x) = n \<Longrightarrow> length (concat (map f xs)) = length xs * n"
  by (induction xs) simp_all

lemma length_py_range: "length (py_range a b) = nat (b - a)"
  by (simp add: py_range_def)

lemma set_py_range: "set (py_range a b) = {a..<b}"
  by (auto simp: py_range_def)

text \<open>
  A range whose rows lie in the sheet and whose end column lies beyond it: each row
  contributes its cells from the start column to the last column of the sheet, then
  \<open>end_col_idx + 1 - num_cols\<close> missing markers.
\<close>

lemma range_columns_out_of_bounds:
  assumes w1: "accepted_token l1 d1" and w2: "accepted_token l2 d2"
    and r: "1 \<le> row_of d1" "row_of d1 \<le> int (num_rows df)" "row_of d2 \<le> int (num_rows df)"
    and c: "int (num_cols df) \<le> column_of l2 - 1"
  shows "get_range_data_from_pandas U df (l1 @ d1 @ colon # l2 @ d2)
       = ([RangeColumnsExceed (l1 @ d1 @ colon # l2 @ d2) (num_cols df)],
          Inr (PyList (concat (map
            (\<lambda>r. map (\<lambda>c. Scalar (cell df (nat r) (nat c)))
                   (py_range (column_of l1 - 1) (int (num_cols df)))
                 @ replicate (nat (column_of l2 - int (num_cols df))) PyNone)
            (py_range (row_of d1 - 1) (row_of d2))))))"
proof -
  have s: "split colon ((l1 @ d1) @ colon # (l2 @ d2)) = [l1 @ d1, l2 @ d2]"
    using accepted_no_colon [OF w1] accepted_no_colon [OF w2]
    by (rule split_two)
  have c1: "1 \<le> column_of l1" using w1 by (rule accepted_column_pos)
  have rv: "range_values df (py_range (column_of l1 - 1) (int (num_cols df)))
              (replicate (nat (column_of l2 - int (num_cols df))) PyNone)
              (py_range (row_of d1 - 1) (row_of d2))
       = Inr (concat (map
            (\<lambda>r. map (\<lambda>c. Scalar (cell df (nat r) (nat c)))
                   (py_range (column_of l1 - 1) (int (num_cols df)))
                 @ replicate (nat (column_of l2 - int (num_cols df))) PyNone)
            (py_range (row_of d1 - 1) (row_of d2))))"
    using c1 r by (intro range_values_in_bounds) (auto simp: set_py_range)
  have m: "min (column_of l2) (int (num_cols df)) = int (num_cols df)"
    "min (row_of d2) (int (num_rows df)) = row_of d2"
    using c r by simp_all
  have "colon \<in> set ((l1 @ d1) @ colon # (l2 @ d2))" by simp
  then have "get_range_data_from_pandas U df ((l1 @ d1) @ colon # (l2 @ d2))
       = ([RangeColumnsExceed ((l1 @ d1) @ colon # (l2 @ d2)) (num_cols df)],
          Inr (PyList (concat (map
            (\<lambda>r. map (\<lambda>c. Scalar (cell df (nat r) (nat c)))
                   (py_range (column_of l1 - 1) (int (num_cols df)))
                 @ replicate (nat (column_of l2 - int (num_cols df))) PyNone)
            (py_range (row_of d1 - 1) (row_of d2))))))"
    using r c
    by (simp add: get_range_data_from_pandas_def s parse_cell_accepted [OF w1]
        parse_cell_accepted [OF w2] column_index_accepted [OF w1]
        column_index_accepted [OF w2] rv m del: append_assoc)
  then show ?thesis by simp
qed

text \<open>
  The number of elements: the rows of the range times the in-bounds columns from the
  start column plus the padding. When the start column is at most one past the sheet,
  that is the size of the range; when it lies further out, every row is longer than the
  range is wide.
\<close>

lemma range_columns_count:
  assumes w1: "accepted_token l1 d1" and w2: "accepted_token l2 d2"
    and r: "1 \<le> row_of d1" "row_of d1 \<le> row_of d2" "row_of d2 \<le> int (num_rows df)"
    and c: "int (num_cols df) \<le> column_of l2 - 1"
    and g: "get_range_data_from_pandas U df (l1 @ d1 @ colon # l2 @ d2) = (out, Inr (PyList values))"
  shows "int (length values)
       = (row_of d2 - row_of d1 + 1)
         * (max 0 (int (num_cols df) - (column_of l1 - 1)) + (column_of l2 - int (num_cols df)))"
proof -
  have r1: "row_of d1 \<le> int (num_rows df)" using r by simp
  have v: "values = concat (map
            (\<lambda>r. map (\<lambda>c. Scalar (cell df (nat r) (nat c)))
                   (py_range (column_of l1 - 1) (int (num_cols df)))
                 @ replicate (nat (column_of l2 - int (num_cols df))) PyNone)
            (py_range (row_of d1 - 1) (row_of d2)))"
    using g range_columns_out_of_bounds [OF w1 w2 r(1) r1 r(3) c, of U] by simp
  have "length values = length (py_range (row_of d1 - 1) (row_of d2))
        * (nat (int (num_cols df) - (column_of l1 - 1)) + nat (column_of l2 - int (num_cols df)))"
    unfolding v by (rule length_concat_const) (simp add: length_py_range)
  then have "int (length values) = int (nat (row_of d2 - (row_of d1 - 1)))
        * (int (nat (int (num_cols df) - (column_of l1 - 1)))
           + int (nat (column_of l2 - int (num_cols df))))"
    by (simp add: length_py_range)
  then show ?thesis using r c by (simp add: max_def)
qed

lemma range_columns_count_good:
  assumes w1: "accepted_token l1 d1" and w2: "accepted_token l2 d2"
    and r: "1 \<le> row_of d1" "row_of d1 \<le> row_of d2" "row_of d2 \<le> int (num_rows df)"
    and c: "int (num_cols df) \<le> column_of l2 - 1" "column_of l1 - 1 \<le> int (num_cols df)"
    and g: "get_range_data_from_pandas U df (l1 @ d1 @ colon # l2 @ d2) = (out, Inr (PyList values))"
  shows "int (length values)
       = (row_of d2 - row_of d1 + 1) * (column_of l2 - column_of l1 + 1)"
  using range_columns_count [OF w1 w2 r c(1) g] c(2) by (simp add: max_def)

text \<open>
  Claim C2. The claim gives the flattened result the size of the range, rows times
  columns. On a sheet of one row and one column the range C1:D1 covers two cells, both
  outside the sheet; the resolver returns three missing markers, because line 74 pads by
  \<open>end_col_idx + 1 - num_cols\<close> whatever the start column is.
\<close>

theorem range_padding_overshoot:
  "get_range_data_from_pandas U grid_1x1 (str ''C1:D1'')
     = ([RangeColumnsExceed (str ''C1:D1'') 1], Inr (PyList [PyNone, PyNone, PyNone])) \<and>
   (row_of (str ''1'') - row_of (str ''1'') + 1) * (column_of (str ''D'') - column_of (str ''C'') + 1)
     = 2"
  by (simp add: resolve_eval grid_1x1_def row_of_def column_of_def letter_value_def
      numeral_3_eq_3)

section \<open>Worksheet records\<close>

text \<open>
  The loop over the specs builds the record by setting one field per spec, whatever is
  logged on the way.
\<close>

lemma extract_fields_record:
  "snd (extract_fields U on_error df ps d) = foldl (set_field U df) d ps"
proof (induction ps arbitrary: d)
  case Nil
  show ?case by simp
next
  case (Cons p ps)
  obtain cell_range column_header where p: "p = (cell_range, column_header)" by (cases p)
  obtain out res where g: "get_range_data_from_pandas U df cell_range = (out, res)"
    by (cases "get_range_data_from_pandas U df cell_range")
  show ?case
  proof (cases res)
    case (Inl e)
    then show ?thesis
      using Cons [of "AList.update column_header PyNone d"] p g
      by (simp add: set_field_def resolved_def case_prod_beta)
  next
    case (Inr v)
    then show ?thesis
      using Cons [of "AList.update column_header v d"] p g
      by (simp add: set_field_def resolved_def case_prod_beta)
  qed
qed

lemma extract_fields_append:
  "extract_fields U on_error df (xs @ ys) d =
     (case extract_fields U on_error df xs d of
        (log1, d1) \<Rightarrow>
          (case extract_fields U on_error df ys d1 of
             (log2, d2) \<Rightarrow> (log1 @ log2, d2)))"
proof (induction xs arbitrary: d)
  case Nil
  show ?case by (simp add: case_prod_beta)
next
  case (Cons p xs)
  obtain cell_range column_header where p: "p = (cell_range, column_header)" by (cases p)
  obtain out res where g: "get_range_data_from_pandas U df cell_range = (out, res)"
    by (cases "get_range_data_from_pandas U df cell_range")
  show ?case
    using p g Cons by (cases res) (simp_all add: case_prod_beta)
qed

lemma keys_set_field: "fst ` set (set_field U df d p) = insert (snd p) (fst ` set d)"
  by (simp add: set_field_def dom_update)

lemma keys_foldl_set_field:
  "fst ` set (foldl (set_field U df) d ps) = fst ` set d \<union> snd ` set ps"
  by (induction ps arbitrary: d) (auto simp: keys_set_field)

lemma distinct_foldl_set_field:
  "distinct (map fst d) \<Longrightarrow> distinct (map fst (foldl (set_field U df) d ps))"
  by (induction ps arbitrary: d) (simp_all add: set_field_def distinct_update)

lemma map_of_foldl_set_field_other:
  "k \<notin> snd ` set ps \<Longrightarrow> map_of (foldl (set_field U df) d ps) k = map_of d k"
  by (induction ps arbitrary: d) (auto simp: set_field_def update_conv')

lemma map_of_foldl_set_field_last:
  assumes "h \<notin> snd ` set after"
  shows "map_of (foldl (set_field U df) d (before @ (cell_range, h) # after)) h
       = Some (resolved U df cell_range)"
  using assms by (simp add: map_of_foldl_set_field_other) (simp add: set_field_def update_conv')

lemma single_file_sheets_records:
  "snd (single_file_sheets U file_name ps sheets)
     = map (\<lambda>(sheet_name, df). worksheet_record U file_name ps sheet_name df) (readable sheets)"
proof (induction sheets rule: readable.induct)
  case 1
  show ?case by simp
next
  case (2 sheet_name sheets)
  then show ?case by (simp add: case_prod_beta)
next
  case (3 sheet_name df sheets)
  have "snd (extract_fields U (\<lambda>cell_range e. ExtractFailed cell_range sheet_name e) df ps
          [(sheet_key, PyStr sheet_name), (source_file_key, PyStr file_name)])
      = worksheet_record U file_name ps sheet_name df"
    by (simp only: extract_fields_record worksheet_record_def)
  with 3 show ?case by (simp add: case_prod_beta)
qed

lemma merge_sheets_records:
  "snd (merge_sheets U file_name ps sheets)
     = map (\<lambda>(sheet_name, df). worksheet_record U file_name ps sheet_name df) (readable sheets)"
proof (induction sheets rule: readable.induct)
  case 1
  show ?case by simp
next
  case (2 sheet_name sheets)
  then show ?case by (simp add: case_prod_beta)
next
  case (3 sheet_name df sheets)
  have "snd (extract_fields U GuiExtractFailed df ps
          [(sheet_key, PyStr sheet_name), (source_file_key, PyStr file_name)])
      = worksheet_record U file_name ps sheet_name df"
    by (simp only: extract_fields_record worksheet_record_def)
  with 3 show ?case by (simp add: case_prod_beta)
qed

lemma keys_distinct: "sheet_key \<noteq> source_file_key"
  by (simp add: sheet_key_def source_file_key_def str_def)

lemma worksheet_record_keys:
  "fst ` set (worksheet_record U file_name ps sheet_name df)
     = {sheet_key, source_file_key} \<union> snd ` set ps"
  by (auto simp: worksheet_record_def keys_foldl_set_field)

lemma worksheet_record_distinct:
  "distinct (map fst (worksheet_record U file_name ps sheet_name df))"
  unfolding worksheet_record_def
  by (rule distinct_foldl_set_field) (simp add: keys_distinct)

lemma single_entry:
  "distinct (map fst xs) \<Longrightarrow> k \<in> fst ` set xs \<Longrightarrow> length (filter (\<lambda>kv. fst kv = k) xs) = 1"
proof (induction xs)
  case Nil
  then show ?case by simp
next
  case (Cons x xs)
  show ?case
  proof (cases "fst x = k")
    case True
    then have "k \<notin> fst ` set xs" using Cons.prems(1) by simp
    then have "filter (\<lambda>kv. fst kv = k) xs = []" by (auto simp: filter_empty_conv)
    then show ?thesis using True by simp
  next
    case False
    then show ?thesis using Cons by auto
  qed
qed

text \<open>
  Claim C6. When the resolver raises on one spec, the loop over the specs behaves as
  follows: the specs before it are processed as usual, the error is logged by the
  \<open>except\<close> branch after whatever the resolver printed, the field of the failing spec
  is set to the missing marker, and the specs after it are processed on the record so
  updated. The field still holds the missing marker at the end unless a later spec has
  the same field name. The worksheet yields its record and the sheets after it are
  processed, in both extraction functions.
\<close>

theorem failing_spec_contained:
  assumes "get_range_data_from_pandas U df cell_range = (out, Inl e)"
  shows "extract_fields U on_error df (before @ (cell_range, column_header) # after) rowdict =
           (case extract_fields U on_error df before rowdict of
              (log1, d1) \<Rightarrow>
                (case extract_fields U on_error df after
                        (AList.update column_header PyNone d1) of
                   (log2, d2) \<Rightarrow> (log1 @ out @ on_error cell_range e # log2, d2))) \<and>
         (column_header \<notin> snd ` set after \<longrightarrow>
            map_of (snd (extract_fields U on_error df
                           (before @ (cell_range, column_header) # after) rowdict))
              column_header = Some PyNone) \<and>
         snd (single_file_sheets U file_name (before @ (cell_range, column_header) # after)
                ((sheet_name, Some df) # sheets))
           = snd (extract_fields U on_error df (before @ (cell_range, column_header) # after)
                    [(sheet_key, PyStr sheet_name), (source_file_key, PyStr file_name)])
             # snd (single_file_sheets U file_name
                      (before @ (cell_range, column_header) # after) sheets) \<and>
         snd (merge_sheets U file_name (before @ (cell_range, column_header) # after)
                ((sheet_name, Some df) # sheets))
           = snd (extract_fields U on_error df (before @ (cell_range, column_header) # after)
                    [(sheet_key, PyStr sheet_name), (source_file_key, PyStr file_name)])
             # snd (merge_sheets U file_name
                      (before @ (cell_range, column_header) # after) sheets)"
proof -
  have a: "extract_fields U on_error df (before @ (cell_range, column_header) # after) rowdict =
           (case extract_fields U on_error df before rowdict of
              (log1, d1) \<Rightarrow>
                (case extract_fields U on_error df after
                        (AList.update column_header PyNone d1) of
                   (log2, d2) \<Rightarrow> (log1 @ out @ on_error cell_range e # log2, d2)))"
    using assms by (simp add: extract_fields_append case_prod_beta)
  have r: "resolved U df cell_range = PyNone"
    using assms by (simp add: resolved_def)
  have b: "column_header \<notin> snd ` set after \<longrightarrow>
            map_of (snd (extract_fields U on_error df
                           (before @ (cell_range, column_header) # after) rowdict))
              column_header = Some PyNone"
    using map_of_foldl_set_field_last [of column_header after U df rowdict before cell_range] r
    by (simp only: extract_fields_record) simp
  have c: "snd (single_file_sheets U file_name ps ((sheet_name, Some df) # sheets))
           = snd (extract_fields U on_error df ps
                    [(sheet_key, PyStr sheet_name), (source_file_key, PyStr file_name)])
             # snd (single_file_sheets U file_name ps sheets)" for ps
    unfolding single_file_sheets_records extract_fields_record
    by (simp add: worksheet_record_def)
  have d: "snd (merge_sheets U file_name ps ((sheet_name, Some df) # sheets))
           = snd (extract_fields U on_error df ps
                    [(sheet_key, PyStr sheet_name), (source_file_key, PyStr file_name)])
             # snd (merge_sheets U file_name ps sheets)" for ps
    unfolding merge_sheets_records extract_fields_record
    by (simp add: worksheet_record_def)
  from a b c d show ?thesis by (intro conjI)
qed

lemmas extract_eval =
  resolve_eval parse_position_args_def parse_eval sheet_key_def source_file_key_def

text \<open>The malformed token ABC between two good specs on the 3 by 2 grid.\<close>

theorem failing_spec_contained_witness:
  "get_range_data_from_pandas sample_db grid_3x2 (str ''ABC'') = ([], Inl ValueError) \<and>
   extract_fields sample_db GuiExtractFailed grid_3x2
     [(str ''A1'', str ''first''), (str ''ABC'', str ''bad''), (str ''B2'', str ''last'')] []
     = ([GuiExtractFailed (str ''ABC'') ValueError],
        [(str ''first'', Scalar 0), (str ''bad'', PyNone), (str ''last'', Scalar 11)])"
proof -
  have g: "get_range_data_from_pandas sample_db grid_3x2 (str ''ABC'') = ([], Inl ValueError)"
    by (simp add: resolve_eval)
  have "extract_fields sample_db GuiExtractFailed grid_3x2
     ([(str ''A1'', str ''first'')] @ (str ''ABC'', str ''bad'') # [(str ''B2'', str ''last'')]) []
     = ([GuiExtractFailed (str ''ABC'') ValueError],
        [(str ''first'', Scalar 0), (str ''bad'', PyNone), (str ''last'', Scalar 11)])"
    using failing_spec_contained [OF g, of GuiExtractFailed "[(str ''A1'', str ''first'')]"
        "str ''bad''" "[(str ''B2'', str ''last'')]" "[]"]
    by (simp add: resolve_eval grid_3x2_def)
  with g show ?thesis by simp
qed

text \<open>
  Claim C10. When several specs parse to the same field name, the record maps that name
  to what the last of them contributes (its resolved value, or the missing marker when
  its resolution raised), and the record has exactly one entry under that name, so the
  values of the earlier specs are gone.
\<close>

theorem last_duplicate_wins:
  assumes "parse_position_args U position_args = before @ (cell_range, h) # after"
    and "h \<notin> snd ` set after"
  shows "map_of (snd (extract_fields U on_error df (parse_position_args U position_args)
                   [(sheet_key, PyStr sheet_name), (source_file_key, PyStr file_name)])) h
           = Some (resolved U df cell_range) \<and>
         length (filter (\<lambda>kv. fst kv = h)
                   (snd (extract_fields U on_error df (parse_position_args U position_args)
                      [(sheet_key, PyStr sheet_name), (source_file_key, PyStr file_name)]))) = 1"
proof -
  have r: "snd (extract_fields U on_error df (parse_position_args U position_args)
                   [(sheet_key, PyStr sheet_name), (source_file_key, PyStr file_name)])
         = worksheet_record U file_name (before @ (cell_range, h) # after) sheet_name df"
    by (simp only: extract_fields_record worksheet_record_def assms(1))
  have "h \<in> fst ` set (worksheet_record U file_name (before @ (cell_range, h) # after) sheet_name df)"
    by (simp add: worksheet_record_keys)
  then have one: "length (filter (\<lambda>kv. fst kv = h)
      (worksheet_record U file_name (before @ (cell_range, h) # after) sheet_name df)) = 1"
    using worksheet_record_distinct by (rule single_entry [rotated])
  have "map_of (worksheet_record U file_name (before @ (cell_range, h) # after) sheet_name df) h
      = Some (resolved U df cell_range)"
    unfolding worksheet_record_def using assms(2) by (rule map_of_foldl_set_field_last)
  with one show ?thesis unfolding r by simp
qed

text \<open>The lines A1-x, B3-x, B2-y: the field x holds the value of B3.\<close>

theorem last_duplicate_wins_witness:
  "parse_position_args sample_db [str ''A1-x'', str ''B3-x'', str ''B2-y'']
     = [(str ''A1'', str ''x''), (str ''B3'', str ''x''), (str ''B2'', str ''y'')] \<and>
   map_of (snd (extract_fields sample_db GuiExtractFailed grid_3x2
                  (parse_position_args sample_db [str ''A1-x'', str ''B3-x'', str ''B2-y''])
                  [(sheet_key, PyStr (str ''S1'')), (source_file_key, PyStr (str ''a.xlsx''))]))
     (str ''x'') = Some (Scalar 21) \<and>
   length (filter (\<lambda>kv. fst kv = str ''x'')
     (snd (extract_fields sample_db GuiExtractFailed grid_3x2
                  (parse_position_args sample_db [str ''A1-x'', str ''B3-x'', str ''B2-y''])
                  [(sheet_key, PyStr (str ''S1'')), (source_file_key, PyStr (str ''a.xlsx''))])))
     = 1"
proof -
  have p: "parse_position_args sample_db [str ''A1-x'', str ''B3-x'', str ''B2-y'']
     = [(str ''A1'', str ''x'')] @ (str ''B3'', str ''x'') # [(str ''B2'', str ''y'')]"
    by (simp add: parse_position_args_def parse_eval)
  have n: "str ''x'' \<notin> snd ` set [(str ''B2'', str ''y'')]"
    by (simp add: str_def)
  have v: "resolved sample_db grid_3x2 (str ''B3'') = Scalar 21"
    by (simp add: resolved_def resolve_eval grid_3x2_def)
  show ?thesis
    using last_duplicate_wins [OF p n, of GuiExtractFailed grid_3x2 "str ''S1''" "str ''a.xlsx''"] p
    unfolding v by simp
qed

lemma worksheet_record_reserved:
  "(sheet_key \<notin> snd ` set ps \<longrightarrow>
      map_of (worksheet_record U file_name ps sheet_name df) sheet_key = Some (PyStr sheet_name)) \<and>
   (source_file_key \<notin> snd ` set ps \<longrightarrow>
      map_of (worksheet_record U file_name ps sheet_name df) source_file_key
        = Some (PyStr file_name))"
  using keys_distinct by (auto simp: worksheet_record_def map_of_foldl_set_field_other)

text \<open>
  Claim C5, amended. Both extraction functions produce exactly one record for each
  worksheet that could be read, in the workbook's order, for every spec list. Each record
  has the keys \<open>sheet\<close> and \<open>source_file\<close>. The key \<open>sheet\<close> holds the
  worksheet name unless a spec has the field name \<open>sheet\<close>, and the key
  \<open>source_file\<close> holds the base name of the file unless a spec has the field name
  \<open>source_file\<close>. With the empty spec list the record holds these two entries only.
\<close>

theorem worksheet_record_total:
  "snd (single_file_sheets U file_name ps sheets)
     = map (\<lambda>(sheet_name, df). worksheet_record U file_name ps sheet_name df) (readable sheets) \<and>
   snd (merge_sheets U file_name ps sheets)
     = map (\<lambda>(sheet_name, df). worksheet_record U file_name ps sheet_name df) (readable sheets) \<and>
   sheet_key \<in> fst ` set (worksheet_record U file_name ps sheet_name df) \<and>
   source_file_key \<in> fst ` set (worksheet_record U file_name ps sheet_name df) \<and>
   (sheet_key \<notin> snd ` set ps \<longrightarrow>
      map_of (worksheet_record U file_name ps sheet_name df) sheet_key = Some (PyStr sheet_name)) \<and>
   (source_file_key \<notin> snd ` set ps \<longrightarrow>
      map_of (worksheet_record U file_name ps sheet_name df) source_file_key
        = Some (PyStr file_name)) \<and>
   worksheet_record U file_name [] sheet_name df
     = [(sheet_key, PyStr sheet_name), (source_file_key, PyStr file_name)]"
proof -
  have k: "sheet_key \<in> fst ` set (worksheet_record U file_name ps sheet_name df)"
    "source_file_key \<in> fst ` set (worksheet_record U file_name ps sheet_name df)"
    by (simp_all add: worksheet_record_keys)
  have e: "worksheet_record U file_name [] sheet_name df
     = [(sheet_key, PyStr sheet_name), (source_file_key, PyStr file_name)]"
    by (simp add: worksheet_record_def)
  show ?thesis
    using single_file_sheets_records [of U file_name ps sheets]
      merge_sheets_records [of U file_name ps sheets] k e
      worksheet_record_reserved [of ps U file_name sheet_name df]
    by (intro conjI) blast+
qed









lemmas record_eval =
  worksheet_record_def set_field_def resolved_def resolve_eval sheet_key_def
  source_file_key_def grid_3x2_def grid_1x1_def

text \<open>
  Claim C5 as stated fails for a spec whose field name is a reserved key: with the line
  A1-sheet the key \<open>sheet\<close> of the record holds the scalar of cell A1, not the
  name of the worksheet.
\<close>

theorem reserved_key_overwritten:
  "snd (single_file_sheets sample_db (str ''a.xlsx'')
          (parse_position_args sample_db [str ''A1-sheet''])
          [(str ''S1'', Some grid_3x2)])
     = [[(sheet_key, Scalar 0), (source_file_key, PyStr (str ''a.xlsx''))]] \<and>
   map_of [(sheet_key, Scalar (0::int)), (source_file_key, PyStr (str ''a.xlsx''))] sheet_key
     \<noteq> Some (PyStr (str ''S1''))"
  by (simp add: parse_position_args_def parse_eval record_eval)

text \<open>
  A workbook with a readable and an unreadable sheet, a good spec and a malformed one:
  one record, with the reserved keys first.
\<close>

theorem worksheet_record_total_witness:
  "snd (single_file_sheets sample_db (str ''a.xlsx'')
          [(str ''B2'', str ''val''), (str ''ABC'', str ''bad'')]
          [(str ''S1'', Some grid_3x2), (str ''S2'', None)])
     = [[(sheet_key, PyStr (str ''S1'')), (source_file_key, PyStr (str ''a.xlsx'')),
         (str ''val'', Scalar 11), (str ''bad'', PyNone)]] \<and>
   map_of (worksheet_record sample_db (str ''a.xlsx'')
             [(str ''B2'', str ''val''), (str ''ABC'', str ''bad'')] (str ''S1'') grid_3x2)
     sheet_key = Some (PyStr (str ''S1''))"
proof -
  have n: "sheet_key \<notin> snd ` set [(str ''B2'', str ''val''), (str ''ABC'', str ''bad'')]"
    by (simp add: sheet_key_def str_def)
  have w: "worksheet_record sample_db (str ''a.xlsx'')
             [(str ''B2'', str ''val''), (str ''ABC'', str ''bad'')] (str ''S1'') grid_3x2
     = [(sheet_key, PyStr (str ''S1'')), (source_file_key, PyStr (str ''a.xlsx'')),
         (str ''val'', Scalar 11), (str ''bad'', PyNone)]"
    by (simp add: record_eval)
  show ?thesis
    using n worksheet_record_total [of sample_db "str ''a.xlsx''"
        "[(str ''B2'', str ''val''), (str ''ABC'', str ''bad'')]"
        "[(str ''S1'', Some grid_3x2), (str ''S2'', None)]" "str ''S1''" grid_3x2]
    by (simp add: w)
qed





end
